theory Spec2Isabelle
  imports Complex_Main "HOL-Library.Word" "HOL-Library.Signed_Division"
begin

unbundle bit_operations_syntax

section \<open>The RC receiver of Hackflight (receiver.hpp)\<close>

text \<open>
  The class \<^verbatim>\<open>hf::Receiver\<close> reads raw channel values, keeps a debounced code of the
  stick positions, and shapes the raw values into flight commands. Its members become the
  fields of a record, its methods functions that take the receiver and return it updated.

  In the receiver's state and in \<^verbatim>\<open>update\<close> and \<^verbatim>\<open>computeExpo\<close>, a C++ \<^verbatim>\<open>float\<close>
  is modelled as a \<open>real\<close>: comparisons, sums and products are the mathematical ones,
  without rounding, infinities or NaN. \<^verbatim>\<open>scaleup\<close> cuts an integer out of a
  \<^verbatim>\<open>float\<close>, where the last bit of the \<^verbatim>\<open>float\<close> decides the result; its arithmetic
  is modelled as IEEE 754 single precision, every operation rounded (see below).
  \<^verbatim>\<open>uint8_t\<close> is \<open>8 word\<close>,
  \<^verbatim>\<open>int16_t\<close> is \<open>16 word\<close> read with \<open>sint\<close>, \<^verbatim>\<open>int32_t\<close> is \<open>32 word\<close> read
  with \<open>sint\<close>. The arrays \<^verbatim>\<open>rawvals[CONFIG_RC_CHANS]\<close> and \<^verbatim>\<open>commands[4]\<close> are lists.
\<close>

subsection \<open>Data\<close>

record ReceiverConfig =
  margin :: real
  pitchRollExpo :: real
  pitchRollRate :: real
  throttleExpo :: real
  throttleMid :: real

record Receiver =
  commandDelay :: "8 word"
  averageIndex :: "32 word"
  config :: ReceiverConfig
  rawvals :: "real list"
  commands :: "real list"
  sticks :: "8 word"

text \<open>
  Modelled from the spec: the channel indices \<^verbatim>\<open>DEMAND_ROLL\<close>, \<^verbatim>\<open>DEMAND_PITCH\<close>,
  \<^verbatim>\<open>DEMAND_YAW\<close> and \<^verbatim>\<open>DEMAND_THROTTLE\<close> are declared in a header that is not part of
  the sources at hand. The spec enumerates the channel roles as roll, pitch, yaw, throttle,
  aux, index-addressable in this order; the source reads the auxiliary channel at index 4.
\<close>

definition DEMAND_ROLL :: nat where "DEMAND_ROLL = 0"
definition DEMAND_PITCH :: nat where "DEMAND_PITCH = 1"
definition DEMAND_YAW :: nat where "DEMAND_YAW = 2"
definition DEMAND_THROTTLE :: nat where "DEMAND_THROTTLE = 3"

text \<open>
  \<^verbatim>\<open>CONFIG_RC_CHANS\<close> comes from the same missing header. \<^verbatim>\<open>update\<close> writes
  \<^verbatim>\<open>rawvals[0]\<close> to \<^verbatim>\<open>rawvals[4]\<close>, so the array has at least five entries;
  \<^verbatim>\<open>commands\<close> has exactly four. Every receiver object satisfies this.
\<close>

definition wellFormed :: "Receiver \<Rightarrow> bool" where
  "wellFormed r = (5 \<le> length (rawvals r) \<and> length (commands r) = 4)"

text \<open>
  What one call of \<^verbatim>\<open>update\<close> sees of its surroundings: the two virtual methods
  \<^verbatim>\<open>useSerial\<close> and \<^verbatim>\<open>readChannel\<close> of the concrete receiver, and the contents of the
  local array \<^verbatim>\<open>float averageRaw[5][4]\<close> at entry. The array is declared inside
  \<^verbatim>\<open>update\<close> without \<^verbatim>\<open>static\<close> and without an initialiser, so its contents at entry
  are whatever the stack holds: they are an input of the call, not a field of the receiver.
\<close>

record Cycle =
  useSerial :: bool
  readChannel :: "nat \<Rightarrow> real"
  averageRaw :: "nat \<Rightarrow> int \<Rightarrow> real"

subsection \<open>init\<close>

text \<open>
  \<^verbatim>\<open>init\<close> copies the configuration and clears \<^verbatim>\<open>commandDelay\<close>, \<^verbatim>\<open>sticks\<close> and
  \<^verbatim>\<open>averageIndex\<close>; \<^verbatim>\<open>rawvals\<close> and \<^verbatim>\<open>commands\<close> keep what they held.
\<close>

definition init :: "ReceiverConfig \<Rightarrow> Receiver \<Rightarrow> Receiver" where
  "init rcConfig r = r\<lparr>config := rcConfig, commandDelay := 0, sticks := 0, averageIndex := 0\<rparr>"

subsection \<open>update\<close>

text \<open>Serial receivers: \<^verbatim>\<open>for chan < 5: rawvals[chan] = readChannel(chan)\<close>.\<close>

definition readDirect :: "(nat \<Rightarrow> real) \<Rightarrow> real list \<Rightarrow> real list" where
  "readDirect rd rv = foldl (\<lambda>rv chan. rv[chan := rd chan]) rv [0..<5]"

text \<open>
  Other receivers, one channel: the reading goes to slot \<^verbatim>\<open>averageIndex % 4\<close> of the
  channel's row of the local array (\<^verbatim>\<open>%\<close> truncates, as \<open>smod\<close> does), then
  \<^verbatim>\<open>rawvals[chan]\<close> is cleared, the four slots of the row are added to it, and it is
  divided by 4. \<^verbatim>\<open>averageIndex++\<close> wraps around here after \<open>2^31\<close> calls (in C++ the
  overflow is undefined); the slot is then negative and the write misses the four slots
  that are read.
\<close>

definition filterChannel ::
  "(nat \<Rightarrow> real) \<Rightarrow> int \<Rightarrow> (nat \<Rightarrow> int \<Rightarrow> real) \<times> real list \<Rightarrow> nat \<Rightarrow> (nat \<Rightarrow> int \<Rightarrow> real) \<times> real list" where
  "filterChannel rd slot s chan =
     (let avg = fst s; rv = snd s;
          avg1 = avg(chan := (avg chan)(slot := rd chan));
          rv1 = rv[chan := 0];
          rv2 = foldl (\<lambda>rv i. rv[chan := rv ! chan + avg1 chan (int i)]) rv1 [0..<4];
          rv3 = rv2[chan := rv2 ! chan / 4]
      in (avg1, rv3))"

definition readFiltered :: "Cycle \<Rightarrow> 32 word \<Rightarrow> real list \<Rightarrow> real list" where
  "readFiltered e idx rv =
     snd (foldl (filterChannel (readChannel e) (sint idx smod 4)) (averageRaw e, rv) [0..<5])"

text \<open>
  The stick loop, one channel: shift the code right by two, set \<^verbatim>\<open>0x80\<close> when the raw
  value is above \<^verbatim>\<open>-1 + margin\<close>, set \<^verbatim>\<open>0x40\<close> when it is below \<^verbatim>\<open>+1 - margin\<close>.
\<close>

definition stickStep :: "ReceiverConfig \<Rightarrow> real list \<Rightarrow> 8 word \<Rightarrow> nat \<Rightarrow> 8 word" where
  "stickStep cfg rv stTmp i =
     (let s1 = drop_bit 2 stTmp;
          s2 = (if rv ! i > - 1 + margin cfg then s1 OR 0x80 else s1);
          s3 = (if rv ! i < 1 - margin cfg then s2 OR 0x40 else s2)
      in s3)"

definition checkSticks :: "Receiver \<Rightarrow> 8 word" where
  "checkSticks r = foldl (stickStep (config r) (rawvals r)) 0 [0..<4]"

definition update :: "Cycle \<Rightarrow> Receiver \<Rightarrow> Receiver" where
  "update e r =
     (let r1 = (if useSerial e
                then r\<lparr>rawvals := readDirect (readChannel e) (rawvals r)\<rparr>
                else r\<lparr>rawvals := readFiltered e (averageIndex r) (rawvals r),
                       averageIndex := averageIndex r + 1\<rparr>);
          stTmp = checkSticks r1;
          r2 = (if stTmp = sticks r1
                then (if commandDelay r1 < 250
                      then r1\<lparr>commandDelay := commandDelay r1 + 1\<rparr>
                      else r1)
                else r1\<lparr>commandDelay := 0\<rparr>)
      in r2\<lparr>sticks := stTmp\<rparr>)"

text \<open>\<^verbatim>\<open>changed\<close> reads \<^verbatim>\<open>commandDelay\<close>; it returns its answer and the receiver.\<close>

definition changed :: "Receiver \<Rightarrow> bool \<times> Receiver" where
  "changed r = (commandDelay r = 20, r)"

subsection \<open>computeExpo and its helpers\<close>

definition makePositiveCommand :: "nat \<Rightarrow> Receiver \<Rightarrow> Receiver" where
  "makePositiveCommand channel r =
     r\<lparr>commands := (commands r)[channel := \<bar>rawvals r ! channel\<bar>]\<rparr>"

definition rcFun :: "real \<Rightarrow> real \<Rightarrow> real \<Rightarrow> real" where
  "rcFun x e r = (1 + e * (x * x - 1)) * x * r"

definition applyPitchRollFunction :: "nat \<Rightarrow> Receiver \<Rightarrow> Receiver" where
  "applyPitchRollFunction channel r =
     r\<lparr>commands := (commands r)[channel :=
          rcFun (commands r ! channel) (pitchRollExpo (config r)) (pitchRollRate (config r))]\<rparr>"

text \<open>
  In \<^verbatim>\<open>throttleFun\<close> the divisor \<^verbatim>\<open>y*y\<close> is zero only when \<^verbatim>\<open>mid\<close> is 1 and
  \<^verbatim>\<open>x > 1\<close>, or \<^verbatim>\<open>mid\<close> is 0 and \<^verbatim>\<open>x < 0\<close>. The C++ division then gives an infinity
  or a NaN, which a \<open>real\<close> cannot hold, while HOL's division gives 0. \<^verbatim>\<open>computeExpo\<close>
  passes \<^verbatim>\<open>x = (raw + 1) / 2\<close>, which lies between 0 and 1 for every raw throttle
  between -1 and +1, so the case needs a raw value outside the receiver's range; no
  statement below is about it.
\<close>

definition throttleFun :: "real \<Rightarrow> real \<Rightarrow> real \<Rightarrow> real" where
  "throttleFun x e mid =
     (let tmp = x - mid;
          y = (if tmp > 0 then 1 - mid else (if tmp < 0 then mid else 1))
      in mid + tmp * (1 - e + e * (tmp * tmp) / (y * y)))"

definition adjustCommand :: "nat \<Rightarrow> Receiver \<Rightarrow> Receiver" where
  "adjustCommand channel r =
     (let r1 = r\<lparr>commands := (commands r)[channel := commands r ! channel / 2]\<rparr>
      in if rawvals r1 ! channel < 0
         then r1\<lparr>commands := (commands r1)[channel := - (commands r1 ! channel)]\<rparr>
         else r1)"

definition computeExpo :: "Receiver \<Rightarrow> Receiver" where
  "computeExpo r =
     (let r1 = makePositiveCommand DEMAND_ROLL r;
          r2 = makePositiveCommand DEMAND_PITCH r1;
          r3 = makePositiveCommand DEMAND_YAW r2;
          r4 = applyPitchRollFunction DEMAND_ROLL r3;
          r5 = applyPitchRollFunction DEMAND_PITCH r4;
          r6 = adjustCommand DEMAND_ROLL r5;
          r7 = adjustCommand DEMAND_PITCH r6;
          r8 = adjustCommand DEMAND_YAW r7;
          r9 = r8\<lparr>commands := (commands r8)[DEMAND_YAW := - (commands r8 ! DEMAND_YAW)]\<rparr>;
          tmp = (rawvals r9 ! DEMAND_THROTTLE + 1) / 2
      in r9\<lparr>commands := (commands r9)[DEMAND_THROTTLE :=
              throttleFun tmp (throttleExpo (config r9)) (throttleMid (config r9))]\<rparr>)"

subsection \<open>getAuxState, throttleIsDown, scaleup\<close>

text \<open>The auxiliary state is 0 (low), 1 (middle) or 2 (high).\<close>

definition getAuxState :: "Receiver \<Rightarrow> 8 word \<times> Receiver" where
  "getAuxState r =
     (let aux = rawvals r ! 4
      in (if aux < 0 then 0 else (if aux < 0.4 then 1 else 2), r))"

definition throttleIsDown :: "Receiver \<Rightarrow> bool \<times> Receiver" where
  "throttleIsDown r = (rawvals r ! DEMAND_THROTTLE < - 1 + margin (config r), r)"

text \<open>
  The arithmetic of \<^verbatim>\<open>scaleup\<close>. A \<^verbatim>\<open>float\<close> is an IEEE 754 single-precision
  number: a finite value, an infinity with its sign (\<open>True\<close> for the negative one), or a
  NaN. \<open>Finite 0\<close> stands for both zeros; the sign of a zero shows only in a division by
  it, whose result is an infinity or a NaN whatever the sign. Every operation rounds its
  exact result to single precision (no wider intermediate results, no fused operations).
  The \<^verbatim>\<open>float\<close> arguments of \<^verbatim>\<open>scaleup\<close> are values of this type; a finite one is a
  value that the rounding leaves as it is.
\<close>

datatype f32 = Finite real | Infinite bool | NaN

text \<open>
  Rounding to nearest, ties to even. The exponent of a value is the largest \<open>e\<close> from
  -126 to 127 with \<open>2^e \<le> |v|\<close>, and -126 for the subnormal values below \<open>2^-126\<close>; the
  value is rounded to a multiple of \<open>2^(e-23)\<close> (24 significant bits), and a result of
  magnitude \<open>2^128\<close> or more is an infinity.
\<close>

definition pow2 :: "int \<Rightarrow> real" where
  "pow2 e = (if 0 \<le> e then 2 ^ nat e else 1 / 2 ^ nat (- e))"

definition float_exponent :: "real \<Rightarrow> int" where
  "float_exponent v = foldl (\<lambda>acc e. if pow2 e \<le> \<bar>v\<bar> then e else acc) (- 126) [- 125 .. 127]"

definition round_half_even :: "real \<Rightarrow> int" where
  "round_half_even r =
     (let f = \<lfloor>r\<rfloor>; d = r - of_int f
      in if d < 1 / 2 then f else if 1 / 2 < d then f + 1 else if even f then f else f + 1)"

definition round_f32 :: "real \<Rightarrow> f32" where
  "round_f32 v =
     (let q = pow2 (float_exponent v - 23);
          r = of_int (round_half_even (v / q)) * q
      in if pow2 128 \<le> \<bar>r\<bar> then Infinite (v < 0) else Finite r)"

text \<open>
  The four operations: on finite operands the exact result, rounded; on the others the
  rules of IEEE 754.
\<close>

fun fsub :: "f32 \<Rightarrow> f32 \<Rightarrow> f32" where
  "fsub (Finite a) (Finite b) = round_f32 (a - b)"
| "fsub (Finite a) (Infinite t) = Infinite (\<not> t)"
| "fsub (Infinite s) (Finite b) = Infinite s"
| "fsub (Infinite s) (Infinite t) = (if s = t then NaN else Infinite s)"
| "fsub NaN b = NaN"
| "fsub a NaN = NaN"

fun fadd :: "f32 \<Rightarrow> f32 \<Rightarrow> f32" where
  "fadd (Finite a) (Finite b) = round_f32 (a + b)"
| "fadd (Finite a) (Infinite t) = Infinite t"
| "fadd (Infinite s) (Finite b) = Infinite s"
| "fadd (Infinite s) (Infinite t) = (if s = t then Infinite s else NaN)"
| "fadd NaN b = NaN"
| "fadd a NaN = NaN"

fun fmul :: "f32 \<Rightarrow> f32 \<Rightarrow> f32" where
  "fmul (Finite a) (Finite b) = round_f32 (a * b)"
| "fmul (Finite a) (Infinite t) = (if a = 0 then NaN else Infinite ((a < 0) \<noteq> t))"
| "fmul (Infinite s) (Finite b) = (if b = 0 then NaN else Infinite (s \<noteq> (b < 0)))"
| "fmul (Infinite s) (Infinite t) = Infinite (s \<noteq> t)"
| "fmul NaN b = NaN"
| "fmul a NaN = NaN"

fun fdiv :: "f32 \<Rightarrow> f32 \<Rightarrow> f32" where
  "fdiv (Finite a) (Finite b) =
     (if b = 0 then (if a = 0 then NaN else Infinite (a < 0)) else round_f32 (a / b))"
| "fdiv (Finite a) (Infinite t) = Finite 0"
| "fdiv (Infinite s) (Finite b) = Infinite (s \<noteq> (b < 0))"
| "fdiv (Infinite s) (Infinite t) = NaN"
| "fdiv NaN b = NaN"
| "fdiv a NaN = NaN"

text \<open>The conversion of an \<^verbatim>\<open>int\<close> to \<^verbatim>\<open>float\<close> rounds as well.\<close>

definition int_to_float :: "int \<Rightarrow> f32" where
  "int_to_float k = round_f32 (of_int k)"

text \<open>
  Returning a \<^verbatim>\<open>float\<close> from a function of type \<^verbatim>\<open>int16_t\<close> drops the fraction
  (rounds towards zero); the conversion is undefined when the value is not finite or the
  integer does not fit \<^verbatim>\<open>int16_t\<close>, which is \<open>None\<close> here.
\<close>

definition float_trunc :: "real \<Rightarrow> int" where
  "float_trunc v = (if 0 \<le> v then \<lfloor>v\<rfloor> else \<lceil>v\<rceil>)"

fun float_to_int16 :: "f32 \<Rightarrow> 16 word option" where
  "float_to_int16 (Finite v) =
     (let t = float_trunc v
      in if - 32768 \<le> t \<and> t \<le> 32767 then Some (word_of_int t) else None)"
| "float_to_int16 (Infinite s) = None"
| "float_to_int16 NaN = None"

text \<open>
  \<^verbatim>\<open>scaleup\<close>: \<^verbatim>\<open>out_max - out_min\<close> is computed on \<^verbatim>\<open>int\<close> (the operands are
  promoted, so it cannot overflow) and then converted to \<^verbatim>\<open>float\<close>, as is
  \<^verbatim>\<open>out_min\<close> for the sum; the other operations are on \<^verbatim>\<open>float\<close>, in the order of the
  source expression.
\<close>

definition scaleup :: "f32 \<Rightarrow> f32 \<Rightarrow> f32 \<Rightarrow> 16 word \<Rightarrow> 16 word \<Rightarrow> 16 word option" where
  "scaleup x in_min in_max out_min out_max =
     float_to_int16
       (fadd (fdiv (fmul (fsub x in_min) (int_to_float (sint out_max - sint out_min)))
                   (fsub in_max in_min))
             (int_to_float (sint out_min)))"

text \<open>
  The formula of the spec, \<open>(x - in_min) * (out_max - out_min) / (in_max - in_min) + out_min\<close>,
  with the integral output bounds taken as the numbers they are and the operations those
  of \<^verbatim>\<open>float\<close>.
\<close>

definition scale_formula :: "f32 \<Rightarrow> f32 \<Rightarrow> f32 \<Rightarrow> int \<Rightarrow> int \<Rightarrow> f32" where
  "scale_formula x in_min in_max out_min out_max =
     fadd (fdiv (fmul (fsub x in_min) (Finite (real_of_int out_max - real_of_int out_min)))
                (fsub in_max in_min))
          (Finite (real_of_int out_min))"

subsection \<open>Cycles\<close>

text \<open>The caller's loop: one \<^verbatim>\<open>update\<close> per cycle.\<close>

fun run :: "Cycle list \<Rightarrow> Receiver \<Rightarrow> Receiver" where
  "run [] r = r"
| "run (e # es) r = run es (update e r)"

text \<open>
  The stick code is held over a run of cycles: every \<^verbatim>\<open>update\<close> of the run computes the
  code that the receiver already stores.
\<close>

fun holding :: "Receiver \<Rightarrow> Cycle list \<Rightarrow> bool" where
  "holding r [] = True"
| "holding r (e # es) = (sticks (update e r) = sticks r \<and> holding (update e r) es)"

subsection \<open>Auxiliary definitions for the statements\<close>

text \<open>
  The two tests of the stick loop on one raw value, as a two-bit number: 2 for the test
  that sets \<^verbatim>\<open>0x80\<close>, 1 for the test that sets \<^verbatim>\<open>0x40\<close>.
\<close>

definition channelBits :: "ReceiverConfig \<Rightarrow> real \<Rightarrow> 8 word" where
  "channelBits cfg raw =
     (if raw > - 1 + margin cfg then 2 else 0) OR (if raw < 1 - margin cfg then 1 else 0)"

text \<open>What \<^verbatim>\<open>adjustCommand\<close> makes of a command \<open>c\<close> whose raw value is \<open>raw\<close>.\<close>

definition signedHalf :: "real \<Rightarrow> real \<Rightarrow> real" where
  "signedHalf raw c = (if raw < 0 then - (c / 2) else c / 2)"

text \<open>
  Concrete inputs: the configuration of the end-to-end scenario, a receiver object before
  \<^verbatim>\<open>init\<close>, a serial receiver that delivers the given five values, and a non-serial
  receiver that delivers \<open>v\<close> on every channel while the stack holds \<open>junk\<close>.
\<close>

definition scenarioConfig :: ReceiverConfig where
  "scenarioConfig = \<lparr>margin = 0.1, pitchRollExpo = 0.5, pitchRollRate = 1.0,
                      throttleExpo = 0.3, throttleMid = 0.5\<rparr>"

definition blank :: Receiver where
  "blank = \<lparr>commandDelay = 0, averageIndex = 0, config = scenarioConfig,
             rawvals = [0, 0, 0, 0, 0], commands = [0, 0, 0, 0], sticks = 0\<rparr>"

definition serialCycle :: "real list \<Rightarrow> Cycle" where
  "serialCycle vs = \<lparr>useSerial = True, readChannel = (\<lambda>chan. vs ! chan),
                      averageRaw = (\<lambda>chan i. 0)\<rparr>"

definition noisyCycle :: "real \<Rightarrow> real \<Rightarrow> Cycle" where
  "noisyCycle v junk = \<lparr>useSerial = False, readChannel = (\<lambda>chan. v),
                          averageRaw = (\<lambda>chan i. junk)\<rparr>"

text \<open>The receiver after \<^verbatim>\<open>init\<close> and one cycle with all sticks centred.\<close>

definition centred :: Receiver where
  "centred = update (serialCycle [0, 0, 0, 0, 0]) (init scenarioConfig blank)"

text \<open>The receiver of the end-to-end scenario after \<^verbatim>\<open>init\<close> and one \<^verbatim>\<open>update\<close>.\<close>

definition scenario :: Receiver where
  "scenario = update (serialCycle [0.6, - 0.6, 0.3, 0, 0.5]) (init scenarioConfig blank)"

section \<open>Properties\<close>

subsection \<open>Loop bounds and bits\<close>

lemma upt5: "[0..<5] = [0, 1, 2, 3, 4]"
  by (simp add: upt_rec)

lemma upt4: "[0..<4] = [0, 1, 2, 3]"
  by (simp add: upt_rec)

lemma bit_128_int: "bit (128 :: int) n = (n = 7)"
proof -
  have "(128 :: int) = 2 ^ 7" by simp
  then show ?thesis by (simp only: bit_exp_iff) auto
qed

lemma bit_64_int: "bit (64 :: int) n = (n = 6)"
proof -
  have "(64 :: int) = 2 ^ 6" by simp
  then show ?thesis by (simp only: bit_exp_iff) auto
qed

lemma bit_u8_high: "8 \<le> n \<Longrightarrow> \<not> bit (w :: 8 word) n"
  by (auto dest: bit_imp_le_length)

subsection \<open>The stick code\<close>

lemma bit_stickStep:
  "bit (stickStep cfg rv st i) n =
     (if n = 7 then rv ! i > - 1 + margin cfg
      else if n = 6 then rv ! i < 1 - margin cfg
      else bit st (n + 2))"
  by (simp add: stickStep_def Let_def bit_or_iff bit_128_int bit_64_int bit_drop_bit_eq
      bit_u8_high)

lemma checkSticks_bits:
  "bit (checkSticks r) n =
     (if n = 7 then rawvals r ! 3 > - 1 + margin (config r)
      else if n = 6 then rawvals r ! 3 < 1 - margin (config r)
      else if n = 5 then rawvals r ! 2 > - 1 + margin (config r)
      else if n = 4 then rawvals r ! 2 < 1 - margin (config r)
      else if n = 3 then rawvals r ! 1 > - 1 + margin (config r)
      else if n = 2 then rawvals r ! 1 < 1 - margin (config r)
      else if n = 1 then rawvals r ! 0 > - 1 + margin (config r)
      else if n = 0 then rawvals r ! 0 < 1 - margin (config r)
      else False)"
  by (simp add: checkSticks_def upt4 bit_stickStep bit_u8_high)

lemma sticks_update: "sticks (update e r) = checkSticks (update e r)"
  by (simp add: update_def Let_def checkSticks_def)

lemma config_update: "config (update e r) = config r"
  by (simp add: update_def Let_def)

lemma bit_channelBits:
  "bit (channelBits cfg raw) n =
     ((n = 1 \<and> raw > - 1 + margin cfg) \<or> (n = 0 \<and> raw < 1 - margin cfg))"
  by (auto simp: channelBits_def bit_or_iff bit_2_iff bit_1_iff)

lemma code_from_bits:
  fixes w :: "8 word"
  assumes "\<And>n. bit w n =
     (if n = 7 then a3 else if n = 6 then b3 else if n = 5 then a2 else if n = 4 then b2
      else if n = 3 then a1 else if n = 2 then b1 else if n = 1 then a0
      else if n = 0 then b0 else False)"
    and "\<And>n. bit p3 n = ((n = 1 \<and> a3) \<or> (n = 0 \<and> b3))"
    and "\<And>n. bit p2 n = ((n = 1 \<and> a2) \<or> (n = 0 \<and> b2))"
    and "\<And>n. bit p1 n = ((n = 1 \<and> a1) \<or> (n = 0 \<and> b1))"
    and "\<And>n. bit p0 n = ((n = 1 \<and> a0) \<or> (n = 0 \<and> b0))"
  shows "w = push_bit 6 p3 OR push_bit 4 p2 OR push_bit 2 p1 OR p0"
proof (rule bit_eqI)
  fix n
  assume "possible_bit TYPE(8 word) n"
  then have "n < 8" by (simp add: possible_bit_def)
  then have "n \<in> {0, 1, 2, 3, 4, 5, 6, 7}"
    by auto
  then show "bit w n = bit (push_bit 6 p3 OR push_bit 4 p2 OR push_bit 2 p1 OR p0) n"
    by (elim insertE emptyE) (simp_all add: assms bit_or_iff bit_push_bit_iff)
qed

text \<open>
  C1, as the source has it. The claim reads the two bits of a channel's pair as "near
  minimum" and "near maximum". The loop sets \<^verbatim>\<open>0x80\<close> (commented "check for MIN") when
  the raw value is strictly above \<^verbatim>\<open>-1 + margin\<close>, and \<^verbatim>\<open>0x40\<close> ("check for MAX") when
  it is strictly below \<^verbatim>\<open>+1 - margin\<close>: a centred stick has both bits set. With all
  sticks centred and a margin of 0.1 the code is \<^verbatim>\<open>0xFF\<close>, although no raw value is
  below \<open>-0.9\<close> or above \<open>0.9\<close>.
\<close>

theorem update_centred_sets_all_bits_counterexample:
  "rawvals centred ! 0 = 0
   \<and> sticks centred = 0xFF
   \<and> bit (sticks centred) 0 \<and> bit (sticks centred) 1
   \<and> \<not> (rawvals centred ! 0 < - 1 + margin (config centred))
   \<and> \<not> (rawvals centred ! 0 > 1 - margin (config centred))"
  by code_simp

text \<open>
  C1, amended: for every flight-demand channel \<open>i\<close> (0 to 3) and every \<^verbatim>\<open>update\<close>, the
  upper bit of the channel's pair in the stick code (bit \<open>2i+1\<close>, set through \<^verbatim>\<open>0x80\<close>)
  is set if and only if the channel's raw value is strictly greater than \<open>-1 + margin\<close>,
  and the lower bit (bit \<open>2i\<close>, set through \<^verbatim>\<open>0x40\<close>) is set if and only if the raw
  value is strictly less than \<open>+1 - margin\<close>.
\<close>

theorem update_stick_bits_polarity:
  assumes "i < 4"
  shows "(bit (sticks (update e r)) (2 * i + 1)
            \<longleftrightarrow> rawvals (update e r) ! i > - 1 + margin (config r))
       \<and> (bit (sticks (update e r)) (2 * i)
            \<longleftrightarrow> rawvals (update e r) ! i < 1 - margin (config r))"
proof -
  from assms have "i = 0 \<or> i = 1 \<or> i = 2 \<or> i = 3" by arith
  then show ?thesis
    by (auto simp: sticks_update checkSticks_bits config_update)
qed

theorem update_stick_bits_polarity_witness:
  "(2::nat) < 4
   \<and> \<not> bit (sticks (update (serialCycle [0, 0, - 1, 1, 0]) (init scenarioConfig blank))) 5
   \<and> bit (sticks (update (serialCycle [0, 0, - 1, 1, 0]) (init scenarioConfig blank))) 4"
proof -
  have h: "(2::nat) < 4" by simp
  have raw: "rawvals (update (serialCycle [0, 0, - 1, 1, 0]) (init scenarioConfig blank)) ! 2 = - 1"
    by code_simp
  have m: "margin (config (init scenarioConfig blank)) = 1 / 10"
    by code_simp
  show ?thesis
    using update_stick_bits_polarity [OF h, of "serialCycle [0, 0, - 1, 1, 0]"
        "init scenarioConfig blank"]
    by (simp add: raw m)
qed

text \<open>
  C5, as the source has it. The loop shifts the code right by two before it sets the bits
  of the next channel at the top, so the first channel ends in the two lowest bits. With
  channel 0 centred and the others low the code is \<^verbatim>\<open>0x57\<close>; moving channel 0 to low
  changes only the lowest pair (\<^verbatim>\<open>0x55\<close>), and centring channel 3 instead sets the
  highest pair (\<^verbatim>\<open>0xD5\<close>).
\<close>

theorem update_first_channel_lowest_pair_counterexample:
  "sticks (update (serialCycle [0, - 1, - 1, - 1, 0]) (init scenarioConfig blank)) = 0x57
   \<and> sticks (update (serialCycle [- 1, - 1, - 1, - 1, 0]) (init scenarioConfig blank)) = 0x55
   \<and> sticks (update (serialCycle [- 1, - 1, - 1, 0, 0]) (init scenarioConfig blank)) = 0xD5"
  by code_simp

text \<open>
  C5, amended: in the stick code produced by \<^verbatim>\<open>update\<close>, the least-significant bit pair
  belongs to the first flight-demand channel (index 0, roll), and the pairs of the
  following channels follow in channel order towards the most-significant bits, the
  most-significant pair belonging to channel 3 (throttle).
\<close>

theorem update_stick_code_layout:
  "sticks (update e r) =
     push_bit 6 (channelBits (config r) (rawvals (update e r) ! 3))
     OR push_bit 4 (channelBits (config r) (rawvals (update e r) ! 2))
     OR push_bit 2 (channelBits (config r) (rawvals (update e r) ! 1))
     OR channelBits (config r) (rawvals (update e r) ! 0)"
  unfolding sticks_update
  by (rule code_from_bits [OF _ bit_channelBits bit_channelBits bit_channelBits bit_channelBits])
     (simp only: checkSticks_bits config_update)

subsection \<open>The debounce counter\<close>

lemma commandDelay_update:
  "commandDelay (update e r) =
     (if sticks (update e r) = sticks r
      then (if commandDelay r < 250 then commandDelay r + 1 else commandDelay r)
      else 0)"
  by (simp add: update_def Let_def)

lemma unat_commandDelay_update:
  "unat (commandDelay (update e r)) =
     (if sticks (update e r) = sticks r
      then (if unat (commandDelay r) < 250 then unat (commandDelay r) + 1
            else unat (commandDelay r))
      else 0)"
proof -
  have "unat (commandDelay r + 1) = unat (commandDelay r) + 1" if "unat (commandDelay r) < 250"
    using that by (simp add: unat_word_ariths)
  then show ?thesis
    by (simp add: commandDelay_update word_less_nat_alt)
qed

lemma unat_commandDelay_holding:
  "holding r es \<Longrightarrow> unat (commandDelay r) \<le> 250 \<Longrightarrow>
   unat (commandDelay (run es r)) = min (unat (commandDelay r) + length es) 250"
proof (induction es arbitrary: r)
  case Nil
  then show ?case by simp
next
  case (Cons e es)
  from Cons.prems have h: "sticks (update e r) = sticks r" and hs: "holding (update e r) es"
    by simp_all
  from h Cons.prems(2) have le: "unat (commandDelay (update e r)) \<le> 250"
    by (simp add: unat_commandDelay_update)
  from Cons.IH [OF hs le] h Cons.prems(2) show ?case
    by (simp add: unat_commandDelay_update)
qed

lemma changed_unat: "fst (changed r) = (unat (commandDelay r) = 20)"
proof -
  have "(commandDelay r = 20) = (unat (commandDelay r) = unat (20 :: 8 word))"
    by (simp only: word_unat_eq_iff)
  then show ?thesis by (simp add: changed_def)
qed

lemma commandDelay_bound_update:
  "unat (commandDelay r) \<le> 250 \<Longrightarrow> unat (commandDelay (update e r)) \<le> 250"
  by (simp add: unat_commandDelay_update)

lemma commandDelay_bound_run:
  "unat (commandDelay r) \<le> 250 \<Longrightarrow> unat (commandDelay (run es r)) \<le> 250"
  by (induction es arbitrary: r) (simp_all add: commandDelay_bound_update)

text \<open>
  C3: \<^verbatim>\<open>changed\<close> answers true exactly when the counter is 20. Cycles are counted from
  the reset: when the counter is 0 and the following \<open>n\<close> calls of \<^verbatim>\<open>update\<close> all
  compute the stored code, the counter is \<open>min n 250\<close> afterwards, so \<^verbatim>\<open>changed\<close> is
  true after exactly the 20th of them and false after every other one. An \<^verbatim>\<open>update\<close>
  that computes a different code sets the counter to 0.
\<close>

theorem changed_fires_on_twentieth_cycle:
  "(fst (changed r) \<longleftrightarrow> commandDelay r = 20)
   \<and> (commandDelay r = 0 \<and> holding r es \<longrightarrow>
        unat (commandDelay (run es r)) = min (length es) 250
        \<and> (fst (changed (run es r)) \<longleftrightarrow> length es = 20))
   \<and> (sticks (update e r) \<noteq> sticks r \<longrightarrow> commandDelay (update e r) = 0)"
proof (intro conjI impI)
  show "fst (changed r) \<longleftrightarrow> commandDelay r = 20" by (simp add: changed_def)
next
  assume a: "commandDelay r = 0 \<and> holding r es"
  then have "unat (commandDelay r) = 0" by simp
  with a unat_commandDelay_holding [of r es]
  show n: "unat (commandDelay (run es r)) = min (length es) 250" by simp
  then show "fst (changed (run es r)) \<longleftrightarrow> length es = 20"
    by (auto simp: changed_unat min_def)
next
  assume "sticks (update e r) \<noteq> sticks r"
  then show "commandDelay (update e r) = 0" by (simp add: commandDelay_update)
qed

theorem changed_fires_on_twentieth_cycle_witness:
  "commandDelay centred = 0
   \<and> holding centred (replicate 20 (serialCycle [0, 0, 0, 0, 0]))
   \<and> unat (commandDelay (run (replicate 20 (serialCycle [0, 0, 0, 0, 0])) centred)) = 20
   \<and> fst (changed (run (replicate 20 (serialCycle [0, 0, 0, 0, 0])) centred))
   \<and> sticks (update (serialCycle [1, 0, 0, 0, 0]) centred) \<noteq> sticks centred
   \<and> commandDelay (update (serialCycle [1, 0, 0, 0, 0]) centred) = 0"
proof -
  have h1: "commandDelay centred = 0" by code_simp
  have h2: "holding centred (replicate 20 (serialCycle [0, 0, 0, 0, 0]))" by code_simp
  have h3: "sticks (update (serialCycle [1, 0, 0, 0, 0]) centred) \<noteq> sticks centred"
    by code_simp
  show ?thesis
    using h1 h2 h3
      changed_fires_on_twentieth_cycle [of centred "replicate 20 (serialCycle [0, 0, 0, 0, 0])"
        "serialCycle [1, 0, 0, 0, 0]"]
    by simp
qed

text \<open>
  C8: after \<^verbatim>\<open>init\<close> the counter never exceeds 250, whatever the cycles bring. Once it
  is 250, cycles that keep the stick code leave it at 250 and \<^verbatim>\<open>changed\<close> stays false;
  more generally, from a counter of 20 or more, \<^verbatim>\<open>changed\<close> is false after every
  further cycle that keeps the code, so it can only fire again after a change has reset
  the counter.
\<close>

theorem commandDelay_saturates_at_250:
  "unat (commandDelay (run es0 (init rcConfig r0))) \<le> 250
   \<and> (commandDelay r = 250 \<and> holding r es \<longrightarrow>
        commandDelay (run es r) = 250 \<and> \<not> fst (changed (run es r)))
   \<and> (20 \<le> unat (commandDelay r) \<and> unat (commandDelay r) \<le> 250 \<and> holding r (e # es) \<longrightarrow>
        \<not> fst (changed (run (e # es) r)))"
proof (intro conjI impI)
  have "unat (commandDelay (init rcConfig r0)) \<le> 250" by (simp add: init_def)
  then show "unat (commandDelay (run es0 (init rcConfig r0))) \<le> 250"
    by (rule commandDelay_bound_run)
next
  assume a: "commandDelay r = 250 \<and> holding r es"
  then have u: "unat (commandDelay r) = 250" by simp
  with a unat_commandDelay_holding [of r es]
  have n: "unat (commandDelay (run es r)) = 250" by simp
  then have "unat (commandDelay (run es r)) = unat (250 :: 8 word)" by simp
  then show "commandDelay (run es r) = 250" by (simp only: word_unat_eq_iff)
  from n show "\<not> fst (changed (run es r))" by (simp add: changed_unat)
next
  assume a: "20 \<le> unat (commandDelay r) \<and> unat (commandDelay r) \<le> 250 \<and> holding r (e # es)"
  with unat_commandDelay_holding [of r "e # es"]
  have "unat (commandDelay (run (e # es) r)) = min (unat (commandDelay r) + length (e # es)) 250"
    by blast
  with a show "\<not> fst (changed (run (e # es) r))"
    by (auto simp: changed_unat min_def simp del: run.simps holding.simps)
qed

theorem commandDelay_saturates_at_250_witness:
  "commandDelay (centred\<lparr>commandDelay := 250\<rparr>) = 250
   \<and> 20 \<le> unat (commandDelay (centred\<lparr>commandDelay := 250\<rparr>))
   \<and> unat (commandDelay (centred\<lparr>commandDelay := 250\<rparr>)) \<le> 250
   \<and> holding (centred\<lparr>commandDelay := 250\<rparr>)
        (serialCycle [0, 0, 0, 0, 0] # replicate 9 (serialCycle [0, 0, 0, 0, 0]))
   \<and> holding (centred\<lparr>commandDelay := 250\<rparr>) (replicate 9 (serialCycle [0, 0, 0, 0, 0]))
   \<and> commandDelay (run (replicate 9 (serialCycle [0, 0, 0, 0, 0]))
        (centred\<lparr>commandDelay := 250\<rparr>)) = 250
   \<and> \<not> fst (changed (run (serialCycle [0, 0, 0, 0, 0] # replicate 9 (serialCycle [0, 0, 0, 0, 0]))
        (centred\<lparr>commandDelay := 250\<rparr>)))"
proof -
  have h1: "commandDelay (centred\<lparr>commandDelay := 250\<rparr>) = 250" by simp
  have h2: "holding (centred\<lparr>commandDelay := 250\<rparr>)
        (serialCycle [0, 0, 0, 0, 0] # replicate 9 (serialCycle [0, 0, 0, 0, 0]))"
    by code_simp
  have h3: "holding (centred\<lparr>commandDelay := 250\<rparr>) (replicate 9 (serialCycle [0, 0, 0, 0, 0]))"
    by code_simp
  show ?thesis
    using h1 h2 h3
      commandDelay_saturates_at_250 [of "[]" scenarioConfig blank
        "centred\<lparr>commandDelay := 250\<rparr>" "replicate 9 (serialCycle [0, 0, 0, 0, 0])"
        "serialCycle [0, 0, 0, 0, 0]"]
    by (simp del: run.simps holding.simps)
qed

subsection \<open>Sampling through the local array\<close>

lemma filterChannel_nth:
  assumes "chan < length rv"
  shows "filterChannel rd slot (avg, rv) chan =
     (avg(chan := (avg chan)(slot := rd chan)),
      rv[chan := (0 + (if slot = 0 then rd chan else avg chan 0)
                    + (if slot = 1 then rd chan else avg chan 1)
                    + (if slot = 2 then rd chan else avg chan 2)
                    + (if slot = 3 then rd chan else avg chan 3)) / 4])"
  using assms by (simp add: filterChannel_def Let_def upt4)

lemma readFiltered_five:
  "readFiltered e idx [a, b, c, d, x] =
     map (\<lambda>chan. (0 + (if sint idx smod 4 = 0 then readChannel e chan else averageRaw e chan 0)
                    + (if sint idx smod 4 = 1 then readChannel e chan else averageRaw e chan 1)
                    + (if sint idx smod 4 = 2 then readChannel e chan else averageRaw e chan 2)
                    + (if sint idx smod 4 = 3 then readChannel e chan else averageRaw e chan 3)) / 4)
         [0, 1, 2, 3, 4]"
  by (simp add: readFiltered_def upt5 filterChannel_nth)

lemma update_noisy:
  "rawvals (update (noisyCycle v j) r) = readFiltered (noisyCycle v j) (averageIndex r) (rawvals r)"
  "averageIndex (update (noisyCycle v j) r) = averageIndex r + 1"
  by (simp_all add: update_def Let_def noisyCycle_def)

lemma init_sel:
  "rawvals (init c r) = rawvals r"
  "averageIndex (init c r) = 0"
  by (simp_all add: init_def)

text \<open>
  C2 fails on the source. The history \<^verbatim>\<open>averageRaw\<close> is a local array of \<^verbatim>\<open>update\<close>,
  so a call keeps none of the readings of the calls before it: only the slot written in
  this call holds a reading, the other three hold what the stack held. With a reader
  that returns 1 on every channel in four consecutive calls, and a stack that holds 0,
  every smoothed value after the fourth call is \<open>1/4\<close>, not 1.
\<close>

theorem update_filter_forgets_history:
  "rawvals (run [noisyCycle 1 0, noisyCycle 1 0, noisyCycle 1 0, noisyCycle 1 0]
                (init scenarioConfig blank)) = [1/4, 1/4, 1/4, 1/4, 1/4]"
proof -
  have b: "rawvals blank = [0, 0, 0, 0, 0]" by (simp add: blank_def)
  show ?thesis
    by (simp add: update_noisy init_sel b readFiltered_five smod_int_alt_def)
       (simp add: noisyCycle_def)
qed

subsection \<open>Shaping\<close>

lemma length4: "length xs = 4 \<Longrightarrow> \<exists>a b c d. xs = [a, b, c, d]"
  by (auto simp: length_Suc_conv eval_nat_numeral)

lemma makePositiveCommand_sel:
  "commands (makePositiveCommand ch r) = (commands r)[ch := \<bar>rawvals r ! ch\<bar>]"
  "rawvals (makePositiveCommand ch r) = rawvals r"
  "config (makePositiveCommand ch r) = config r"
  "commandDelay (makePositiveCommand ch r) = commandDelay r"
  "averageIndex (makePositiveCommand ch r) = averageIndex r"
  "sticks (makePositiveCommand ch r) = sticks r"
  by (simp_all add: makePositiveCommand_def)

lemma applyPitchRollFunction_sel:
  "commands (applyPitchRollFunction ch r) =
     (commands r)[ch := rcFun (commands r ! ch) (pitchRollExpo (config r)) (pitchRollRate (config r))]"
  "rawvals (applyPitchRollFunction ch r) = rawvals r"
  "config (applyPitchRollFunction ch r) = config r"
  "commandDelay (applyPitchRollFunction ch r) = commandDelay r"
  "averageIndex (applyPitchRollFunction ch r) = averageIndex r"
  "sticks (applyPitchRollFunction ch r) = sticks r"
  by (simp_all add: applyPitchRollFunction_def)

lemma adjustCommand_commands:
  "commands (adjustCommand ch r) = (commands r)[ch := signedHalf (rawvals r ! ch) (commands r ! ch)]"
proof (cases "ch < length (commands r)")
  case True
  then show ?thesis by (simp add: adjustCommand_def signedHalf_def Let_def)
next
  case False
  then show ?thesis by (simp add: adjustCommand_def signedHalf_def Let_def list_update_beyond)
qed

lemma adjustCommand_sel:
  "rawvals (adjustCommand ch r) = rawvals r"
  "config (adjustCommand ch r) = config r"
  "commandDelay (adjustCommand ch r) = commandDelay r"
  "averageIndex (adjustCommand ch r) = averageIndex r"
  "sticks (adjustCommand ch r) = sticks r"
  by (simp_all add: adjustCommand_def Let_def)

lemmas helper_sel =
  makePositiveCommand_sel applyPitchRollFunction_sel adjustCommand_commands adjustCommand_sel

lemma computeExpo_sel:
  "rawvals (computeExpo r) = rawvals r"
  "config (computeExpo r) = config r"
  "commandDelay (computeExpo r) = commandDelay r"
  "averageIndex (computeExpo r) = averageIndex r"
  "sticks (computeExpo r) = sticks r"
  by (simp_all add: computeExpo_def Let_def helper_sel)

lemma computeExpo_commands:
  assumes "length (commands r) = 4"
  shows "commands (computeExpo r) =
     [signedHalf (rawvals r ! 0)
        (rcFun \<bar>rawvals r ! 0\<bar> (pitchRollExpo (config r)) (pitchRollRate (config r))),
      signedHalf (rawvals r ! 1)
        (rcFun \<bar>rawvals r ! 1\<bar> (pitchRollExpo (config r)) (pitchRollRate (config r))),
      - signedHalf (rawvals r ! 2) \<bar>rawvals r ! 2\<bar>,
      throttleFun ((rawvals r ! 3 + 1) / 2) (throttleExpo (config r)) (throttleMid (config r))]"
proof -
  from assms obtain a b c d where "commands r = [a, b, c, d]"
    using length4 by blast
  then show ?thesis
    by (simp add: computeExpo_def Let_def helper_sel DEMAND_ROLL_def DEMAND_PITCH_def
        DEMAND_YAW_def DEMAND_THROTTLE_def)
qed

lemma length_computeExpo: "length (commands (computeExpo r)) = length (commands r)"
  by (simp add: computeExpo_def Let_def helper_sel)

lemma drop4_computeExpo: "drop 4 (commands (computeExpo r)) = drop 4 (commands r)"
  by (simp add: computeExpo_def Let_def helper_sel DEMAND_ROLL_def DEMAND_PITCH_def
        DEMAND_YAW_def DEMAND_THROTTLE_def)

lemma signedHalf_neg:
  assumes "f 0 = 0"
  shows "signedHalf (- x) (f \<bar>- x\<bar>) = - signedHalf x (f \<bar>x\<bar>)"
proof -
  consider "x < 0" | "x = 0" | "0 < x" by arith
  then show ?thesis
    by cases (simp_all add: signedHalf_def assms)
qed

lemma rcFun_0: "rcFun 0 e r = 0"
  by (simp add: rcFun_def)

lemma scenario_state:
  "scenario =
   \<lparr>commandDelay = 0, averageIndex = 0, config = scenarioConfig,
      rawvals = [0.6, - 0.6, 0.3, 0, 0.5], commands = [0, 0, 0, 0], sticks = 0xFF\<rparr>"
  by code_simp

lemma wellFormed_scenario: "wellFormed scenario"
  by code_simp

text \<open>
  C4, as the source has it. In the scenario the roll command is
  \<open>(1 + 0.5 * (0.36 - 1)) * 0.6 * 1.0 / 2 = 0.68 * 0.6 / 2 = 0.204\<close>, which is not
  0.2460 to any reasonable tolerance.
\<close>

theorem computeExpo_scenario_roll_counterexample:
  "rawvals scenario = [0.6, - 0.6, 0.3, 0, 0.5]
   \<and> commands (computeExpo scenario) ! DEMAND_ROLL = 0.204
   \<and> \<not> \<bar>commands (computeExpo scenario) ! DEMAND_ROLL - 0.2460\<bar> \<le> 0.0001"
  by code_simp

text \<open>
  C4, amended: with the configuration of the scenario and the raw input
  \<open>[0.6, -0.6, 0.3, 0.0, 0.5]\<close> read in direct mode, \<^verbatim>\<open>computeExpo\<close> and
  \<^verbatim>\<open>getAuxState\<close> give a roll command of 0.204, a pitch command of -0.204, a yaw
  command of -0.15, a throttle command of exactly 0.5, and the auxiliary state 2 (high).
\<close>

theorem computeExpo_scenario_commands:
  "config scenario = scenarioConfig
   \<and> rawvals scenario = [0.6, - 0.6, 0.3, 0, 0.5]
   \<and> commands (computeExpo scenario) = [0.204, - 0.204, - 0.15, 0.5]
   \<and> fst (getAuxState (computeExpo scenario)) = 2"
  by (simp add: computeExpo_commands computeExpo_sel getAuxState_def Let_def scenario_state)
     (simp add: signedHalf_def rcFun_def throttleFun_def scenarioConfig_def)

text \<open>
  C6: for a receiver and one of the channels roll, pitch and yaw, negating the raw value
  of that channel (all other raw values the same) negates the command that
  \<^verbatim>\<open>computeExpo\<close> computes for the channel.
\<close>

theorem computeExpo_sign_symmetry:
  assumes "wellFormed r" and "ch = DEMAND_ROLL \<or> ch = DEMAND_PITCH \<or> ch = DEMAND_YAW"
  shows "commands (computeExpo (r\<lparr>rawvals := (rawvals r)[ch := - (rawvals r ! ch)]\<rparr>)) ! ch
           = - (commands (computeExpo r) ! ch)"
proof -
  from assms(1) have c: "length (commands r) = 4" and l: "5 \<le> length (rawvals r)"
    by (simp_all add: wellFormed_def)
  from l have ne: "rawvals r \<noteq> []" by auto
  have roll: "signedHalf (- x) (rcFun \<bar>- x\<bar> e k) = - signedHalf x (rcFun \<bar>x\<bar> e k)" for x e k
    by (rule signedHalf_neg [where f = "\<lambda>y. rcFun y e k"]) (rule rcFun_0)
  have yaw: "signedHalf (- x) \<bar>- x\<bar> = - signedHalf x \<bar>x\<bar>" for x
    by (rule signedHalf_neg [where f = "\<lambda>y. y"]) simp
  from assms(2) consider "ch = 0" | "ch = 1" | "ch = 2"
    by (auto simp: DEMAND_ROLL_def DEMAND_PITCH_def DEMAND_YAW_def)
  then show ?thesis
  proof cases
    case 1
    with l ne show ?thesis
      by (simp add: computeExpo_commands c roll del: abs_minus_cancel abs_minus)
  next
    case 2
    with l ne show ?thesis
      by (simp add: computeExpo_commands c roll del: abs_minus_cancel abs_minus)
  next
    case 3
    with l ne show ?thesis
      by (simp add: computeExpo_commands c yaw del: abs_minus_cancel abs_minus)
  qed
qed

theorem computeExpo_sign_symmetry_witness:
  "wellFormed scenario
   \<and> commands (computeExpo scenario) ! DEMAND_YAW = - 0.15
   \<and> commands (computeExpo
        (scenario\<lparr>rawvals := (rawvals scenario)[DEMAND_YAW := - (rawvals scenario ! DEMAND_YAW)]\<rparr>))
       ! DEMAND_YAW = 0.15"
proof -
  have h: "wellFormed scenario" by code_simp
  have v: "commands (computeExpo scenario) ! DEMAND_YAW = - 0.15" by code_simp
  show ?thesis
    using h v computeExpo_sign_symmetry [OF h, of DEMAND_YAW]
    by simp
qed

text \<open>
  C7: when the raw throttle is \<open>2 * throttleMid - 1\<close>, the rescaled value equals
  \<open>throttleMid\<close>, \<^verbatim>\<open>throttleFun\<close> takes the branch \<open>y = 1\<close>, and the throttle command
  is \<open>throttleMid\<close>, whatever \<open>throttleExpo\<close> is.
\<close>

theorem computeExpo_throttle_midpoint:
  assumes "wellFormed r"
      and "rawvals r ! DEMAND_THROTTLE = 2 * throttleMid (config r) - 1"
  shows "commands (computeExpo r) ! DEMAND_THROTTLE = throttleMid (config r)"
proof -
  from assms(1) have c: "length (commands r) = 4" by (simp add: wellFormed_def)
  from assms(2) show ?thesis
    by (simp add: computeExpo_commands c DEMAND_THROTTLE_def throttleFun_def)
qed

theorem computeExpo_throttle_midpoint_witness:
  "wellFormed scenario
   \<and> rawvals scenario ! DEMAND_THROTTLE = 2 * throttleMid (config scenario) - 1
   \<and> commands (computeExpo scenario) ! DEMAND_THROTTLE = 1 / 2"
proof -
  have h: "wellFormed scenario" by code_simp
  have t: "rawvals scenario ! DEMAND_THROTTLE = 2 * throttleMid (config scenario) - 1"
    by code_simp
  have m: "throttleMid (config scenario) = 1 / 2" by code_simp
  show ?thesis
    using h t computeExpo_throttle_midpoint [OF h t]
    by (simp add: m)
qed

subsection \<open>scaleup\<close>

lemma fold_pick:
  "foldl (\<lambda>acc e. if P e then e else acc) a es = a
   \<or> (foldl (\<lambda>acc e. if P e then e else acc) a es \<in> set es
      \<and> P (foldl (\<lambda>acc e. if P e then e else acc) a es))"
proof (induction es arbitrary: a)
  case Nil
  then show ?case by simp
next
  case (Cons e es)
  from Cons.IH [of "if P e then e else a"] show ?case
    by (auto split: if_splits)
qed

lemma float_exponent_cases:
  "float_exponent v = - 126
   \<or> (- 125 \<le> float_exponent v \<and> float_exponent v \<le> 127
      \<and> pow2 (float_exponent v) \<le> \<bar>v\<bar>)"
proof -
  have "float_exponent v = - 126
        \<or> (float_exponent v \<in> set [- 125 .. 127] \<and> pow2 (float_exponent v) \<le> \<bar>v\<bar>)"
    unfolding float_exponent_def by (rule fold_pick)
  then show ?thesis
    by (simp only: set_upto atLeastAtMost_iff conj_assoc)
qed

lemma float_exponent_small:
  assumes "\<bar>v\<bar> < 2 ^ 24"
  shows "float_exponent v \<le> 23"
proof (rule ccontr)
  assume "\<not> float_exponent v \<le> 23"
  then have big: "24 \<le> float_exponent v" by simp
  with float_exponent_cases [of v] have le: "pow2 (float_exponent v) \<le> \<bar>v\<bar>" by auto
  from big have "24 \<le> nat (float_exponent v)" by simp
  then have "(2::real) ^ 24 \<le> 2 ^ nat (float_exponent v)"
    by (intro power_increasing) simp_all
  with big have "2 ^ 24 \<le> pow2 (float_exponent v)" by (simp add: pow2_def)
  with le assms show False by simp
qed

lemma round_half_even_int: "round_half_even (of_int m) = m"
  by (simp add: round_half_even_def)

lemma sint16_diff_small: "\<bar>sint (a :: 16 word) - sint (b :: 16 word)\<bar> < 2 ^ 24"
proof -
  have "- (2 ^ 15) \<le> sint a" "sint a < 2 ^ 15" "- (2 ^ 15) \<le> sint b" "sint b < 2 ^ 15"
    using sint_ge [of a] sint_lt [of a] sint_ge [of b] sint_lt [of b] by simp_all
  then show ?thesis by simp
qed

lemma sint16_small: "\<bar>sint (a :: 16 word)\<bar> < 2 ^ 24"
proof -
  have "- (2 ^ 15) \<le> sint a" "sint a < 2 ^ 15"
    using sint_ge [of a] sint_lt [of a] by simp_all
  then show ?thesis by simp
qed

lemma sint_float_to_int16:
  "map_option sint (float_to_int16 (Finite v)) =
     (if - 32768 \<le> float_trunc v \<and> float_trunc v \<le> 32767 then Some (float_trunc v) else None)"
proof -
  have "sint (word_of_int t :: 16 word) = t" if "- 32768 \<le> t" "t \<le> 32767" for t
    using that by (simp add: sint_sbintrunc' signed_take_bit_int_eq_self)
  then show ?thesis
    by (simp add: Let_def)
qed


lemma fold_last:
  "sorted es \<Longrightarrow> e \<in> set es \<Longrightarrow> P e \<Longrightarrow>
   e \<le> foldl (\<lambda>acc x. if P x then x else acc) (a :: int) es"
proof (induction es arbitrary: a)
  case Nil
  then show ?case by simp
next
  case (Cons x xs)
  show ?case
  proof (cases "e \<in> set xs")
    case True
    with Cons.IH [of "if P x then x else a"] Cons.prems show ?thesis by simp
  next
    case False
    with Cons.prems have ex: "e = x" and px: "P x" by auto
    from fold_pick [of P x xs] Cons.prems(1) have "x \<le> foldl (\<lambda>acc x. if P x then x else acc) x xs"
      by auto
    with ex px show ?thesis by simp
  qed
qed

lemma pow2_powr: "pow2 e = 2 powr real_of_int e"
proof (cases "0 \<le> e")
  case True
  then have "real_of_int e = real (nat e)" by simp
  then have "2 powr real_of_int e = 2 ^ nat e"
    by (simp only: powr_realpow [of 2, OF zero_less_numeral])
  with True show ?thesis by (simp add: pow2_def)
next
  case False
  then have "real_of_int e = - real (nat (- e))" by simp
  then have "2 powr real_of_int e = 1 / 2 ^ nat (- e)"
    by (simp only: powr_minus_divide powr_realpow [of 2, OF zero_less_numeral])
  with False show ?thesis by (simp add: pow2_def)
qed

lemma pow2_mono: "e \<le> e' \<Longrightarrow> pow2 e \<le> pow2 e'"
  by (simp add: pow2_powr powr_mono)

lemma float_exponent_eq:
  assumes "- 126 \<le> e" "e \<le> 127" "e = - 126 \<or> pow2 e \<le> \<bar>v\<bar>" "\<bar>v\<bar> < pow2 (e + 1)"
  shows "float_exponent v = e"
proof -
  let ?X = "float_exponent v"
  have upper: "?X \<le> e"
  proof (rule ccontr)
    assume "\<not> ?X \<le> e"
    then have gt: "e + 1 \<le> ?X" by simp
    with assms(1) float_exponent_cases [of v] have "pow2 ?X \<le> \<bar>v\<bar>" by auto
    moreover from gt have "pow2 (e + 1) \<le> pow2 ?X" by (rule pow2_mono)
    ultimately show False using assms(4) by simp
  qed
  have lower: "e \<le> ?X"
  proof (cases "e = - 126")
    case True
    with float_exponent_cases [of v] show ?thesis by auto
  next
    case False
    with assms have "e \<in> set [- 125 .. 127]" and "pow2 e \<le> \<bar>v\<bar>"
      by (simp_all only: set_upto atLeastAtMost_iff) auto
    then show ?thesis
      unfolding float_exponent_def
      by (intro fold_last [where P = "\<lambda>e. pow2 e \<le> \<bar>v\<bar>"] sorted_upto)
  qed
  from upper lower show ?thesis by simp
qed

lemma round_f32_eval:
  assumes "- 126 \<le> e" "e \<le> 127" "e = - 126 \<or> pow2 e \<le> \<bar>v\<bar>" "\<bar>v\<bar> < pow2 (e + 1)"
  shows "round_f32 v =
     (if pow2 128 \<le> \<bar>of_int (round_half_even (v / pow2 (e - 23))) * pow2 (e - 23)\<bar>
      then Infinite (v < 0)
      else Finite (of_int (round_half_even (v / pow2 (e - 23))) * pow2 (e - 23)))"
  by (simp only: round_f32_def Let_def float_exponent_eq [OF assms])

lemma round_f32_input: "round_f32 (11744051 / 16777216) = Finite (11744051 / 16777216)"
  by (subst round_f32_eval [of "- 1"]) (simp_all add: pow2_def round_half_even_def)

lemma round_f32_int:
  assumes "\<bar>k\<bar> < 2 ^ 24"
  shows "round_f32 (of_int k) = Finite (of_int k)"
proof -
  let ?e = "float_exponent (of_int k)"
  define n where "n = nat (23 - ?e)"
  from assms have "\<bar>real_of_int k\<bar> < 2 ^ 24"
    by (metis of_int_abs of_int_less_numeral_power_cancel_iff)
  then have "?e \<le> 23" by (rule float_exponent_small)
  then have q: "pow2 (?e - 23) = 1 / 2 ^ n"
    by (auto simp: pow2_def n_def)
  have "real_of_int k / (1 / 2 ^ n) = of_int (k * 2 ^ n)" by simp
  then have r: "of_int (round_half_even (real_of_int k / (1 / 2 ^ n))) * (1 / 2 ^ n) = real_of_int k"
    by (simp only: round_half_even_int) simp
  from \<open>\<bar>real_of_int k\<bar> < 2 ^ 24\<close> have "\<not> pow2 128 \<le> \<bar>real_of_int k\<bar>"
    by (simp add: pow2_def)
  then show ?thesis
    unfolding round_f32_def Let_def q r by simp
qed

lemma int_to_float_diff:
  "int_to_float (sint (a :: 16 word) - sint (b :: 16 word))
     = Finite (real_of_int (sint a) - real_of_int (sint b))"
  using round_f32_int [OF sint16_diff_small [of a b]] by (simp add: int_to_float_def)

lemma int_to_float_sint: "int_to_float (sint (a :: 16 word)) = Finite (real_of_int (sint a))"
  using round_f32_int [OF sint16_small [of a]] by (simp add: int_to_float_def)

lemma round_f32_0: "round_f32 0 = Finite 0"
  using round_f32_int [of 0] by simp

lemma scaleup_degenerate: "scaleup x (Finite a) (Finite a) out_min out_max = None"
proof -
  have d: "fsub (Finite a) (Finite a) = Finite 0" by (simp add: round_f32_0)
  have nf: "fdiv n (Finite 0) = NaN \<or> (\<exists>s. fdiv n (Finite 0) = Infinite s)" for n
    by (cases n) simp_all
  have "float_to_int16 (fadd y (Finite m)) = None" if "y = NaN \<or> (\<exists>s. y = Infinite s)" for y m
    using that by auto
  with nf show ?thesis
    unfolding scaleup_def d int_to_float_sint by blast
qed

lemma sint_float_to_int16_cases:
  "map_option sint (float_to_int16 y) =
     (case y of
        Finite v \<Rightarrow> if - 32768 \<le> float_trunc v \<and> float_trunc v \<le> 32767
                    then Some (float_trunc v) else None
      | Infinite s \<Rightarrow> None
      | NaN \<Rightarrow> None)"
proof (cases y)
  case (Finite v)
  then show ?thesis by (simp only: f32.case sint_float_to_int16)
qed simp_all

text \<open>A finite result of the rounding is within half a unit in the last place.\<close>

lemma round_half_even_error: "\<bar>real_of_int (round_half_even r) - r\<bar> \<le> 1 / 2"
  unfolding round_half_even_def Let_def by (auto split: if_splits)

lemma pow2_pos: "0 < pow2 e"
  by (simp add: pow2_def)

lemma round_f32_error:
  assumes "round_f32 v = Finite r"
  shows "\<bar>r - v\<bar> \<le> pow2 (float_exponent v - 23) / 2"
proof -
  let ?q = "pow2 (float_exponent v - 23)"
  have q: "0 < ?q" by (rule pow2_pos)
  from assms have r: "r = of_int (round_half_even (v / ?q)) * ?q"
    by (simp add: round_f32_def Let_def split: if_splits)
  have "\<bar>r - v\<bar> = \<bar>of_int (round_half_even (v / ?q)) - v / ?q\<bar> * ?q"
  proof -
    from q have "r - v = (of_int (round_half_even (v / ?q)) - v / ?q) * ?q"
      by (simp add: r left_diff_distrib)
    with q show ?thesis by (simp add: abs_mult)
  qed
  also have "\<dots> \<le> 1 / 2 * ?q"
    using q round_half_even_error [of "v / ?q"] by (intro mult_right_mono) simp_all
  finally show ?thesis by simp
qed

lemma round_f32_7: "round_f32 7 = Finite 7"
  using round_f32_int [of 7] by simp

lemma round_f32_1: "round_f32 1 = Finite 1"
  using round_f32_int [of 1] by simp

lemma round_f32_product: "round_f32 (58720255 / 8388608) = Finite 7"
  by (subst round_f32_eval [of 2]) (simp_all add: pow2_def round_half_even_def)

text \<open>
  C9: \<^verbatim>\<open>scaleup\<close> returns the value of
  \<open>(x - in_min) * (out_max - out_min) / (in_max - in_min) + out_min\<close>, computed in
  \<^verbatim>\<open>float\<close> arithmetic with the integral bounds entering exactly, and converted to
  \<^verbatim>\<open>int16_t\<close>: read as a signed number, the result is that value with its fraction
  dropped, and there is a result exactly when the value is finite and this integer fits
  16 bits. This holds for every input; for \<open>in_min = in_max\<close> the value is not finite
  and there is no result (\<open>scaleup_degenerate\<close>). The value is the rounded one: for
  \<open>x = 0.7f\<close>, range 0 to 1 and bounds 0 and 10 the product \<open>0.7f * 10\<close> rounds to 7 and
  the result is 7, while the unrounded value \<open>6.99999988\<close> would give 6.
\<close>

theorem scaleup_formula:
  "scaleup x in_min in_max out_min out_max =
     float_to_int16 (scale_formula x in_min in_max (sint out_min) (sint out_max))
   \<and> map_option sint (scaleup x in_min in_max out_min out_max) =
       (case scale_formula x in_min in_max (sint out_min) (sint out_max) of
          Finite v \<Rightarrow> if - 32768 \<le> float_trunc v \<and> float_trunc v \<le> 32767
                      then Some (float_trunc v) else None
        | Infinite s \<Rightarrow> None
        | NaN \<Rightarrow> None)"
proof -
  have eq: "scaleup x in_min in_max out_min out_max =
     float_to_int16 (scale_formula x in_min in_max (sint out_min) (sint out_max))"
    by (simp only: scaleup_def scale_formula_def int_to_float_diff int_to_float_sint)
  show ?thesis
    by (simp only: eq sint_float_to_int16_cases simp_thms)
qed

theorem scaleup_formula_witness:
  "scaleup (Finite (11744051 / 16777216)) (Finite 0) (Finite 1) 0 10 = Some 7
   \<and> float_trunc (((11744051 / 16777216) - 0) * (10 - 0) / (1 - 0) + 0) = 6"
  using scaleup_formula [of "Finite (11744051 / 16777216)" "Finite 0" "Finite 1" 0 10]
  by (simp add: scale_formula_def round_f32_input round_f32_product round_f32_0 round_f32_1 round_f32_7 float_trunc_def)

subsection \<open>What the methods leave alone\<close>

text \<open>
  C10: \<^verbatim>\<open>computeExpo\<close> changes nothing but the four entries of \<^verbatim>\<open>commands\<close>;
  \<^verbatim>\<open>changed\<close> and \<^verbatim>\<open>getAuxState\<close> return the receiver as they found it, so a second
  call gives the same answer.
\<close>

theorem computeExpo_changed_getAuxState_frame:
  "rawvals (computeExpo r) = rawvals r
   \<and> sticks (computeExpo r) = sticks r
   \<and> commandDelay (computeExpo r) = commandDelay r
   \<and> averageIndex (computeExpo r) = averageIndex r
   \<and> config (computeExpo r) = config r
   \<and> computeExpo r = r\<lparr>commands := commands (computeExpo r)\<rparr>
   \<and> length (commands (computeExpo r)) = length (commands r)
   \<and> drop 4 (commands (computeExpo r)) = drop 4 (commands r)
   \<and> snd (changed r) = r
   \<and> snd (getAuxState r) = r
   \<and> fst (changed (snd (changed r))) = fst (changed r)
   \<and> fst (getAuxState (snd (getAuxState r))) = fst (getAuxState r)"
proof -
  have "computeExpo r = r\<lparr>commands := commands (computeExpo r)\<rparr>"
    by (rule Receiver.equality) (simp_all add: computeExpo_sel)
  then show ?thesis
    by (simp add: computeExpo_sel length_computeExpo drop4_computeExpo changed_def
        getAuxState_def Let_def)
qed

end
